theory Spec2Isabelle
  imports Complex_Main "HOL-Library.Log_Nat"
begin

section \<open>JavaScript numbers\<close>

text \<open>
  Every number of the program is an IEEE 754 double. A finite double is modelled by the
  rational it denotes; the two infinities and NaN are separate values. The two zeros are
  identified: the program divides only by the literal 60 and by its own loop counters,
  which are never the negative zero, and the report prints both zeros alike.

  \<open>fl\<close> rounds an exact rational result to the nearest double, ties to the even
  significand, with gradual underflow below \<open>2 ^ - 1022\<close> and overflow to an infinity
  from \<open>2 ^ 1024 - 2 ^ 970\<close> on.
\<close>

datatype jsnum = Fin rat | PInf | NInf | NaN

definition pow2 :: "int \<Rightarrow> rat" where
  "pow2 k = (if 0 \<le> k then of_int (2 ^ nat k) else 1 / of_int (2 ^ nat (- k)))"

definition ilog2 :: "rat \<Rightarrow> int" where
  "ilog2 a = (let (n, d) = quotient_of a; k = bitlen n - bitlen d
              in if pow2 k \<le> a then k else k - 1)"

definition round_half_even :: "rat \<Rightarrow> int" where
  "round_half_even x =
     (let f = \<lfloor>x\<rfloor>; r = x - of_int f
      in if r < 1 / 2 then f
         else if 1 / 2 < r then f + 1
         else if even f then f else f + 1)"

definition fl :: "rat \<Rightarrow> jsnum" where
  "fl q =
     (if q = 0 then Fin 0
      else let a = \<bar>q\<bar>;
               u = max (ilog2 a - 52) (- 1074);
               r = of_int (round_half_even (a / pow2 u)) * pow2 u
           in if pow2 1024 \<le> r then (if 0 < q then PInf else NInf)
              else Fin (sgn q * r))"

fun js_add :: "jsnum \<Rightarrow> jsnum \<Rightarrow> jsnum" where
  "js_add (Fin a) (Fin b) = fl (a + b)"
| "js_add NaN _ = NaN"
| "js_add _ NaN = NaN"
| "js_add PInf NInf = NaN"
| "js_add NInf PInf = NaN"
| "js_add PInf _ = PInf"
| "js_add _ PInf = PInf"
| "js_add NInf _ = NInf"
| "js_add _ NInf = NInf"

definition signed_inf :: "rat \<Rightarrow> jsnum" where
  "signed_inf a = (if 0 < a then PInf else if a < 0 then NInf else NaN)"

fun js_mul :: "jsnum \<Rightarrow> jsnum \<Rightarrow> jsnum" where
  "js_mul (Fin a) (Fin b) = fl (a * b)"
| "js_mul NaN _ = NaN"
| "js_mul _ NaN = NaN"
| "js_mul (Fin a) PInf = signed_inf a"
| "js_mul (Fin a) NInf = signed_inf (- a)"
| "js_mul PInf (Fin b) = signed_inf b"
| "js_mul NInf (Fin b) = signed_inf (- b)"
| "js_mul PInf PInf = PInf"
| "js_mul NInf NInf = PInf"
| "js_mul PInf NInf = NInf"
| "js_mul NInf PInf = NInf"

fun js_div :: "jsnum \<Rightarrow> jsnum \<Rightarrow> jsnum" where
  "js_div (Fin a) (Fin b) = (if b = 0 then signed_inf a else fl (a / b))"
| "js_div NaN _ = NaN"
| "js_div _ NaN = NaN"
| "js_div (Fin a) PInf = Fin 0"
| "js_div (Fin a) NInf = Fin 0"
| "js_div PInf (Fin b) = (if 0 \<le> b then PInf else NInf)"
| "js_div NInf (Fin b) = (if 0 \<le> b then NInf else PInf)"
| "js_div PInf PInf = NaN"
| "js_div PInf NInf = NaN"
| "js_div NInf PInf = NaN"
| "js_div NInf NInf = NaN"

text \<open>\<open>Math.floor\<close>: the floor of a double is a double, so nothing is rounded.\<close>

fun js_floor :: "jsnum \<Rightarrow> jsnum" where
  "js_floor (Fin a) = Fin (of_int \<lfloor>a\<rfloor>)"
| "js_floor x = x"

text \<open>The value of an integer counter as a number. The loop counters are natural
  numbers: they start at 0 and grow by 1, and below \<open>2 ^ 53\<close> that addition is exact
  on doubles.\<close>

definition num :: "nat \<Rightarrow> jsnum" where
  "num n = Fin (of_nat n)"

fun is_finite :: "jsnum \<Rightarrow> bool" where
  "is_finite (Fin a) = True"
| "is_finite x = False"

text \<open>\<open>x >= 0\<close> on numbers: false for NaN.\<close>

fun js_nonneg :: "jsnum \<Rightarrow> bool" where
  "js_nonneg (Fin a) = (0 \<le> a)"
| "js_nonneg PInf = True"
| "js_nonneg x = False"

text \<open>Truthiness of a number: zero and NaN are falsy.\<close>

fun num_truthy :: "jsnum \<Rightarrow> bool" where
  "num_truthy (Fin a) = (a \<noteq> 0)"
| "num_truthy NaN = False"
| "num_truthy x = True"

section \<open>Objects\<close>

text \<open>
  An object is the list of its own properties in the order in which JavaScript
  enumerates them (\<open>Object.keys\<close>, \<open>JSON.stringify\<close>, lodash's \<open>_.values\<close> and
  \<open>_.mapValues\<close>): first the keys that are array indices (canonical decimal numerals
  below \<open>2 ^ 32 - 1\<close>) in ascending numeric order, then every other key in the order
  of its creation. Assigning to an existing key keeps its place.
\<close>

type_synonym 'v obj = "(string \<times> 'v) list"

definition index_value :: "string \<Rightarrow> int" where
  "index_value s = foldl (\<lambda>n c. 10 * n + (of_char c - 48)) 0 s"

definition is_array_index :: "string \<Rightarrow> bool" where
  "is_array_index s =
     (s \<noteq> [] \<and> list_all (\<lambda>c. c \<in> set ''0123456789'') s
      \<and> (s = ''0'' \<or> hd s \<noteq> CHR ''0'') \<and> index_value s < 4294967295)"

definition obj_get :: "string \<Rightarrow> 'v obj \<Rightarrow> 'v option" where
  "obj_get k ob = map_of ob k"

fun obj_insert :: "string \<Rightarrow> 'v \<Rightarrow> 'v obj \<Rightarrow> 'v obj" where
  "obj_insert k v [] = [(k, v)]"
| "obj_insert k v ((k', v') # r) =
     (if is_array_index k \<and> (\<not> is_array_index k' \<or> index_value k < index_value k')
      then (k, v) # (k', v') # r
      else (k', v') # obj_insert k v r)"

definition obj_set :: "string \<Rightarrow> 'v \<Rightarrow> 'v obj \<Rightarrow> 'v obj" where
  "obj_set k v ob =
     (if obj_get k ob = None then obj_insert k v ob
      else map (\<lambda>(k', v'). if k' = k then (k', v) else (k', v')) ob)"

text \<open>
  \<open>_.mapValues(ob, f)\<close> calls \<open>f(value, key)\<close> on the properties in enumeration order
  and assigns the results to a fresh object in that order, so the result enumerates as
  the source does. \<open>_.values\<close> lists the values in enumeration order.
\<close>

definition mapValues :: "'v obj \<Rightarrow> ('v \<Rightarrow> string \<Rightarrow> 'w) \<Rightarrow> 'w obj" where
  "mapValues ob f = map (\<lambda>(k, v). (k, f v k)) ob"

definition values_of :: "'v obj \<Rightarrow> 'v list" where
  "values_of ob = map snd ob"

section \<open>Time\<close>

text \<open>
  An instant is a number of milliseconds since the epoch, and a local time is a reading
  of the local calendar and clock, counted in milliseconds in the same way. The
  environment of a run is the instant at which it runs, which every call of
  \<open>moment()\<close> in the run reads, and the time zone of the host, which moment reaches
  through the \<open>Date\<close> object only: \<open>zoneOffset\<close> is the offset of local time from UTC,
  in minutes, in force at an instant (\<open>getTimezoneOffset\<close>, negated), and
  \<open>localOffset\<close> is the offset with which the host takes a local time for an instant
  (the \<open>Date\<close> constructor and the setters of the local fields); where a clock change
  skips or repeats local times, the host decides. A moment is an instant, or invalid when
  the text did not parse; every comparison with an invalid moment is false.
\<close>

record env =
  clock :: int
  zoneOffset :: "int \<Rightarrow> int"
  localOffset :: "int \<Rightarrow> int"

definition msPerDay :: int where
  "msPerDay = 86400000"

definition toLocal :: "env \<Rightarrow> int \<Rightarrow> int" where
  "toLocal ev t = t + zoneOffset ev t * 60000"

definition toUTC :: "env \<Rightarrow> int \<Rightarrow> int" where
  "toUTC ev l = l - localOffset ev l * 60000"

text \<open>\<open>const utcOffset = moment().utcOffset()\<close>: the offset in force when the run
  starts.\<close>

definition utcOffset :: "env \<Rightarrow> int" where
  "utcOffset ev = zoneOffset ev (clock ev)"

text \<open>\<open>startOf('day')\<close> sets the local clock fields to zero and keeps the local date;
  \<open>add(n, 'days')\<close> moves the local date by \<open>n\<close> and keeps the local clock fields
  (\<open>setDate\<close>). Both hand the local time they arrive at back to the host.\<close>

definition startOfDay :: "env \<Rightarrow> int \<Rightarrow> int" where
  "startOfDay ev t = toUTC ev (toLocal ev t - toLocal ev t mod msPerDay)"

definition addDays :: "env \<Rightarrow> int \<Rightarrow> int \<Rightarrow> int" where
  "addDays ev n t = toUTC ev (toLocal ev t + n * msPerDay)"

text \<open>\<open>weekday()\<close> in moment's default locale is the day of the week of the local
  date: 0 is Sunday, 6 is Saturday; the epoch fell on a Thursday.\<close>

definition weekday :: "env \<Rightarrow> int \<Rightarrow> int" where
  "weekday ev t = (toLocal ev t div msPerDay + 4) mod 7"

text \<open>The moment of a calendar date (a number of days since the epoch): the instant for
  which the host takes the midnight that starts the date, which is what parsing a
  \<open>YYYY-MM-DD\<close> text gives.\<close>

definition localMidnight :: "env \<Rightarrow> int \<Rightarrow> int" where
  "localMidnight ev d = toUTC ev (d * msPerDay)"



type_synonym moment = "int option"

definition isSameOrAfter :: "moment \<Rightarrow> moment \<Rightarrow> bool" where
  "isSameOrAfter a b = (case (a, b) of (Some x, Some y) \<Rightarrow> y \<le> x | _ \<Rightarrow> False)"

section \<open>The aggregator\<close>

text \<open>An entry as the query returns it; \<open>Date\<close> is the instant that \<open>moment(e.Date)\<close>
  denotes, \<open>DurationSeconds\<close> a number of the JSON text.\<close>

record entry =
  Date :: int
  DurationSeconds :: jsnum
  ProjectName :: string
  TaskName :: string

text \<open>
  The configuration file. \<open>rates\<close> is absent or an object of numbers. A property read
  \<open>config.rates[project]\<close> that finds no own property falls through to
  \<open>Object.prototype\<close>, whose properties are functions (and, for \<open>__proto__\<close>, an
  object): truthy values that multiply to NaN.
\<close>

record config =
  uname :: string
  pword :: string
  rates :: "(string \<rightharpoonup> jsnum) option"

datatype propval = Undefined | Number jsnum | Inherited

definition object_prototype_keys :: "string list" where
  "object_prototype_keys =
     [''constructor'', ''__defineGetter__'', ''__defineSetter__'', ''hasOwnProperty'',
      ''__lookupGetter__'', ''__lookupSetter__'', ''isPrototypeOf'',
      ''propertyIsEnumerable'', ''toString'', ''valueOf'', ''__proto__'',
      ''toLocaleString'']"

definition rates_get :: "(string \<rightharpoonup> jsnum) \<Rightarrow> string \<Rightarrow> propval" where
  "rates_get rs k =
     (case rs k of Some r \<Rightarrow> Number r
      | None \<Rightarrow> if k \<in> set object_prototype_keys then Inherited else Undefined)"

fun prop_truthy :: "propval \<Rightarrow> bool" where
  "prop_truthy Undefined = False"
| "prop_truthy (Number x) = num_truthy x"
| "prop_truthy Inherited = True"

fun to_number :: "propval \<Rightarrow> jsnum" where
  "to_number (Number x) = x"
| "to_number v = NaN"

record aggregate =
  hours :: jsnum
  earnings :: jsnum

record projection =
  weekDays :: nat
  weekDaysPast :: nat
  percentComplete :: jsnum
  avgEarningsPerDay :: jsnum
  avgHoursPerDay :: jsnum
  estimatedEarnings :: jsnum
  estimatedHours :: jsnum

text \<open>The values that the report object holds under its keys.\<close>

datatype jsval = Agg aggregate | Bool bool | Proj projection

definition groupBy :: "entry list \<Rightarrow> (entry list) obj" where
  "groupBy es =
     foldl (\<lambda>result e.
        case obj_get (ProjectName e) result of
          Some items \<Rightarrow> obj_set (ProjectName e) (items @ [e]) result
        | None \<Rightarrow> obj_set (ProjectName e) [e] result) [] es"

definition resolve_rate :: "config \<Rightarrow> string \<Rightarrow> jsnum" where
  "resolve_rate cfg project =
     (case rates cfg of
        None \<Rightarrow> Fin 0
      | Some rs \<Rightarrow>
          if prop_truthy (rates_get rs project) then to_number (rates_get rs project)
          else if prop_truthy (rates_get rs ''_default'') then to_number (rates_get rs ''_default'')
          else Fin 0)"

definition project_aggregate :: "config \<Rightarrow> entry list \<Rightarrow> string \<Rightarrow> aggregate" where
  "project_aggregate cfg items project =
     (let summed = foldl (\<lambda>memo i. js_add memo (DurationSeconds i)) (Fin 0) items;
          h = js_div (js_div summed (Fin 60)) (Fin 60);
          rate = resolve_rate cfg project
      in \<lparr>hours = h, earnings = js_mul rate h\<rparr>)"

definition sum_aggregates :: "aggregate list \<Rightarrow> aggregate" where
  "sum_aggregates ags =
     foldl (\<lambda>memo a. \<lparr>hours = js_add (hours memo) (hours a),
                       earnings = js_add (earnings memo) (earnings a)\<rparr>)
       \<lparr>hours = Fin 0, earnings = Fin 0\<rparr> ags"

definition entry_is_today :: "env \<Rightarrow> entry \<Rightarrow> bool" where
  "entry_is_today ev e =
     (let now = startOfDay ev (clock ev);
          tomorrow = addDays ev 1 (startOfDay ev (clock ev));
          m = Date e - utcOffset ev * 60000
      in now \<le> m \<and> m \<le> tomorrow)"

text \<open>The per-project object \<open>aggregated\<close>, as it is before \<open>total\<close> and
  \<open>haveEntryToday\<close> are assigned to it: all its values are aggregates. \<open>Agg\<close> makes
  them values of the report, which holds the flag and the projection under its keys too.\<close>

definition aggregated :: "config \<Rightarrow> entry list \<Rightarrow> aggregate obj" where
  "aggregated cfg entries =
     (let byProject = groupBy entries
      in mapValues byProject (\<lambda>items project. project_aggregate cfg items project))"

definition aggregateResults :: "env \<Rightarrow> entry list \<Rightarrow> config \<Rightarrow> jsval obj" where
  "aggregateResults ev entries cfg =
     (let tot = sum_aggregates (values_of (aggregated cfg entries));
          aggregated1 = obj_set ''total'' (Agg tot) (mapValues (aggregated cfg entries) (\<lambda>a k. Agg a));
          aggregated2 = obj_set ''haveEntryToday'' (Bool False) aggregated1
      in if find (entry_is_today ev) entries \<noteq> None
         then obj_set ''haveEntryToday'' (Bool True) aggregated2
         else aggregated2)"

section \<open>The projector\<close>

datatype error = TypeError

fun val_truthy :: "jsval option \<Rightarrow> bool" where
  "val_truthy None = False"
| "val_truthy (Some (Bool b)) = b"
| "val_truthy (Some v) = True"

text \<open>The loop over the days of the range. Nothing in the code bounds it: it ends when
  the host's calendar carries \<open>c\<close> past \<open>to\<close>, and \<open>None\<close> stands for a loop that
  never ends.\<close>

partial_function (option)
  countWeekDays :: "env \<Rightarrow> int \<Rightarrow> int \<Rightarrow> int \<Rightarrow> nat \<times> nat \<Rightarrow> (nat \<times> nat) option" where
  "countWeekDays ev c to now p =
     (if c \<le> to
      then countWeekDays ev (addDays ev 1 c) to now
             (if weekday ev c < 6 \<and> weekday ev c > 0
              then (fst p + 1, if c < now then snd p + 1 else snd p)
              else p)
      else Some p)"

declare countWeekDays.simps [code]

text \<open>The field of \<open>entries.total\<close>; a value that is no aggregate has no such field, and
  \<open>undefined\<close> enters the arithmetic as NaN.\<close>

fun field_of :: "(aggregate \<Rightarrow> jsnum) \<Rightarrow> jsval \<Rightarrow> jsnum" where
  "field_of f (Agg a) = f a"
| "field_of f v = NaN"

definition make_projection :: "nat \<Rightarrow> nat \<Rightarrow> jsval \<Rightarrow> projection" where
  "make_projection wd wdp tot =
     (let ratioComplete = js_div (num wdp) (num wd);
          pc = js_floor (js_mul ratioComplete (Fin 100));
          earningsPerDay = js_floor (js_div (field_of earnings tot) (num wdp));
          estEarnings = js_floor (js_mul earningsPerDay (num wd));
          estHours = js_mul (num wd) (js_div (field_of hours tot) (num wdp))
      in \<lparr>weekDays = wd, weekDaysPast = wdp, percentComplete = pc,
          avgEarningsPerDay = earningsPerDay,
          avgHoursPerDay = js_div (field_of hours tot) (num wdp),
          estimatedEarnings = estEarnings, estimatedHours = estHours\<rparr>)"

text \<open>
  \<open>from\<close> and \<open>to\<close> are the moments that \<open>moment(argv.f, dateFmt)\<close> and
  \<open>moment(argv.t, dateFmt)\<close> return. Reading \<open>entries.total.earnings\<close> throws when the
  object has no \<open>total\<close>. The result is \<open>None\<close> when the loop never ends.
\<close>

definition addProjections ::
  "env \<Rightarrow> moment \<Rightarrow> moment \<Rightarrow> jsval obj \<Rightarrow> (error + jsval obj) option" where
  "addProjections ev from to entries =
     (if isSameOrAfter from to then Some (Inr entries)
      else
        let now = startOfDay ev (clock ev);
            tomorrow = addDays ev 1 (startOfDay ev (clock ev));
            now' = (if val_truthy (obj_get ''haveEntryToday'' entries) then tomorrow else now)
        in case (case (from, to) of
                   (Some c, Some t) \<Rightarrow> countWeekDays ev c t now' (0, 0)
                 | _ \<Rightarrow> Some (0, 0)) of
             None \<Rightarrow> None
           | Some (wd, wdp) \<Rightarrow>
               (case obj_get ''total'' entries of
                  None \<Rightarrow> Some (Inl TypeError)
                | Some tot \<Rightarrow>
                    Some (Inr (obj_set ''projections'' (Proj (make_projection wd wdp tot)) entries))))"

section \<open>The command line\<close>

text \<open>
  The values that the option parser gives a flag: nothing, a text, a number (for a
  numeric argument) or \<open>true\<close> (for a flag without an argument). \<open>monthStart\<close> and
  \<open>monthEnd\<close> are the texts of \<open>moment().startOf('month').format(dateFmt)\<close> and
  \<open>moment().endOf('month').format(dateFmt)\<close>.
\<close>

datatype argval = AUndefined | AStr string | ANum jsnum | ABool bool

fun arg_truthy :: "argval \<Rightarrow> bool" where
  "arg_truthy AUndefined = False"
| "arg_truthy (AStr s) = (s \<noteq> [])"
| "arg_truthy (ANum x) = num_truthy x"
| "arg_truthy (ABool b) = b"

record argv =
  arg_f :: argval
  arg_t :: argval

definition defaultRange :: "string \<Rightarrow> string \<Rightarrow> argv \<Rightarrow> argv" where
  "defaultRange monthStart monthEnd a =
     (if \<not> arg_truthy (arg_f a) \<or> \<not> arg_truthy (arg_t a)
      then a\<lparr>arg_f := AStr monthStart, arg_t := AStr monthEnd\<rparr>
      else a)"

section \<open>Notions of the specification\<close>

text \<open>The entries of a project, and the project names in the order of their first
  entries: the insertion order of the groups.\<close>

definition project_entries :: "entry list \<Rightarrow> string \<Rightarrow> entry list" where
  "project_entries es p = filter (\<lambda>e. ProjectName e = p) es"

fun insertion_order :: "string list \<Rightarrow> string list" where
  "insertion_order [] = []"
| "insertion_order (x # xs) = x # removeAll x (insertion_order xs)"

text \<open>The hours of a project: its summed seconds, divided by 60 and by 60 again, each
  operation one on doubles.\<close>

definition project_hours :: "entry list \<Rightarrow> string \<Rightarrow> jsnum" where
  "project_hours es p =
     js_div (js_div (foldl js_add (Fin 0) (map DurationSeconds (project_entries es p)))
               (Fin 60)) (Fin 60)"

text \<open>The rate in the specification's words: \<open>rates[project]\<close> if present, else
  \<open>rates._default\<close> if present, else 0.\<close>

definition configured_rate :: "config \<Rightarrow> string \<Rightarrow> jsnum" where
  "configured_rate cfg p =
     (case rates cfg of
        None \<Rightarrow> Fin 0
      | Some rs \<Rightarrow> (case rs p of
                     Some r \<Rightarrow> r
                   | None \<Rightarrow> (case rs ''_default'' of Some d \<Rightarrow> d | None \<Rightarrow> Fin 0)))"


text \<open>A number that is an integer and not negative.\<close>

definition nonneg_integer :: "jsnum \<Rightarrow> bool" where
  "nonneg_integer x = (case x of Fin a \<Rightarrow> 0 \<le> a \<and> a = of_int \<lfloor>a\<rfloor> | _ \<Rightarrow> False)"

section \<open>Example runs\<close>

text \<open>
  Three hosts. One keeps UTC. One keeps the time of Los Angeles in 2016: eight hours
  behind UTC, seven from 10:00 UTC on 13 March (02:00 on the local clock, which then
  shows 03:00) to 09:00 UTC on 6 November. One keeps the time of Sao Paulo from 21
  February 2016 to 19 February 2017: three hours behind UTC, two from 03:00 UTC on 16
  October 2016, when the local clock passes from midnight to 01:00 at once. A local time
  that a clock change skips or repeats is taken with the offset in force before the
  change.
\<close>

definition utc_offset :: "int \<Rightarrow> int" where
  "utc_offset t = 0"

definition la_offset :: "int \<Rightarrow> int" where
  "la_offset t = (if 1457863200000 \<le> t \<and> t < 1478422800000 then - 420 else - 480)"

definition la_local_offset :: "int \<Rightarrow> int" where
  "la_local_offset l = (if 1457838000000 \<le> l \<and> l < 1478397600000 then - 420 else - 480)"



text \<open>
  Runs at 10:00 local time in Los Angeles on Wednesday 2016-05-04, on Sunday 2016-03-13
  and on Monday 2016-03-21, at 10:00 UTC on Friday 2016-02-12 and on Monday 2016-05-09,
  and at 10:00 local time in Sao Paulo on Monday 2016-10-24; the reports they start from
  and the projections they give.
\<close>

definition env_2016_05_04 :: env where
  "env_2016_05_04 =
     \<lparr>clock = 1462381200000, zoneOffset = la_offset, localOffset = la_local_offset\<rparr>"

definition env_2016_03_13 :: env where
  "env_2016_03_13 =
     \<lparr>clock = 1457888400000, zoneOffset = la_offset, localOffset = la_local_offset\<rparr>"


definition env_2016_02_12 :: env where
  "env_2016_02_12 =
     \<lparr>clock = 1455271200000, zoneOffset = utc_offset, localOffset = utc_offset\<rparr>"

definition env_2016_05_09 :: env where
  "env_2016_05_09 =
     \<lparr>clock = 1462788000000, zoneOffset = utc_offset, localOffset = utc_offset\<rparr>"


definition report_10h :: "jsval obj" where
  "report_10h = [(''total'', Agg \<lparr>hours = Fin 10, earnings = Fin 100\<rparr>),
                 (''haveEntryToday'', Bool False)]"

definition report_232h :: "jsval obj" where
  "report_232h = [(''total'', Agg \<lparr>hours = Fin 232, earnings = Fin 2900\<rparr>),
                  (''haveEntryToday'', Bool False)]"

definition report_1h :: "jsval obj" where
  "report_1h = [(''A'', Agg \<lparr>hours = Fin 1, earnings = Fin 10\<rparr>),
                (''total'', Agg \<lparr>hours = Fin 1, earnings = Fin 10\<rparr>),
                (''haveEntryToday'', Bool False)]"

definition projection_2_of_5 :: projection where
  "projection_2_of_5 = \<lparr>weekDays = 5, weekDaysPast = 2, percentComplete = Fin 40,
     avgEarningsPerDay = Fin 50, avgHoursPerDay = Fin 5,
     estimatedEarnings = Fin 250, estimatedHours = Fin 25\<rparr>"

definition projection_29_of_50 :: projection where
  "projection_29_of_50 = \<lparr>weekDays = 50, weekDaysPast = 29, percentComplete = Fin 57,
     avgEarningsPerDay = Fin 100, avgHoursPerDay = Fin 8,
     estimatedEarnings = Fin 5000, estimatedHours = Fin 400\<rparr>"



definition projection_0_of_5 :: projection where
  "projection_0_of_5 = \<lparr>weekDays = 5, weekDaysPast = 0, percentComplete = Fin 0,
     avgEarningsPerDay = PInf, avgHoursPerDay = PInf,
     estimatedEarnings = PInf, estimatedHours = PInf\<rparr>"

text \<open>
  Configurations without rates, with a rate for project A, with a zero rate for A beside
  a default rate, with an empty \<open>rates\<close> object and with an infinite rate (written
  \<open>1e999\<close> in the file); an entry of some seconds for a project, stamped on Saturday
  2016-05-07; and some lists of entries.
\<close>

definition cfg_none :: config where
  "cfg_none = \<lparr>uname = ''u'', pword = ''p'', rates = None\<rparr>"

definition cfg_A10 :: config where
  "cfg_A10 = \<lparr>uname = ''u'', pword = ''p'', rates = Some [''A'' \<mapsto> Fin 10]\<rparr>"

definition cfg_A0 :: config where
  "cfg_A0 = \<lparr>uname = ''u'', pword = ''p'',
              rates = Some [''A'' \<mapsto> Fin 0, ''_default'' \<mapsto> Fin 50]\<rparr>"

definition cfg_empty :: config where
  "cfg_empty = \<lparr>uname = ''u'', pword = ''p'', rates = Some Map.empty\<rparr>"

definition cfg_inf :: config where
  "cfg_inf = \<lparr>uname = ''u'', pword = ''p'', rates = Some [''A'' \<mapsto> PInf]\<rparr>"

definition work :: "string \<Rightarrow> rat \<Rightarrow> entry" where
  "work p s = \<lparr>Date = 1462608000000, DurationSeconds = Fin s, ProjectName = p, TaskName = ''T''\<rparr>"

definition entries_B_A_B_C :: "entry list" where
  "entries_B_A_B_C = [work ''B'' 360, work ''A'' 1080, work ''B'' 720, work ''C'' 720]"

definition entries_A_1_2 :: "entry list" where
  "entries_A_1_2 = [work ''A'' 360, work ''1'' 1080, work ''2'' 720]"

definition entries_total_A :: "entry list" where
  "entries_total_A = [work ''total'' 3600, work ''A'' 7200]"

definition entries_overflow :: "entry list" where
  "entries_overflow = [work ''A'' (pow2 1023), work ''A'' (pow2 1023)]"

section \<open>Rounding to the nearest double\<close>

text \<open>
  \<open>ilog2\<close> is the binary logarithm rounded down; the rounded value is a multiple of
  the unit in the last place, \<open>2 ^ max (ilog2 \<bar>q\<bar> - 52) (- 1074)\<close>, at most half a
  unit away from the exact one; a number that has a significand below \<open>2 ^ 53\<close> at an
  exponent from \<open>- 1074\<close> on is not changed, an integer below \<open>2 ^ 53\<close> among them;
  and from \<open>2 ^ 1024\<close> on the result is infinite.
\<close>

lemma pow2_powi: "pow2 k = 2 powi k"
  by (simp add: pow2_def power_int_def power_inverse [symmetric] inverse_eq_divide power_one_over)

lemma pow2_pos: "0 < pow2 k"
  by (simp add: pow2_powi)

lemma pow2_add: "pow2 (i + j) = pow2 i * pow2 j"
  by (simp add: pow2_powi power_int_add)

lemma pow2_mono: "i \<le> j \<Longrightarrow> pow2 i \<le> pow2 j"
  by (simp add: pow2_powi power_int_increasing)

lemma pow2_strict_mono: "i < j \<Longrightarrow> pow2 i < pow2 j"
  by (simp add: pow2_powi power_int_strict_increasing)

lemma pow2_less_iff: "pow2 i < pow2 j \<longleftrightarrow> i < j"
  using pow2_strict_mono [of i j] pow2_mono [of j i] by (auto simp: not_less [symmetric])

lemma round_half_even_error: "\<bar>of_int (round_half_even x) - x\<bar> \<le> 1 / 2"
proof -
  have "of_int \<lfloor>x\<rfloor> \<le> x" "x < of_int \<lfloor>x\<rfloor> + 1" by linarith+
  then show ?thesis
    unfolding round_half_even_def Let_def
    by (auto simp: abs_le_iff)
qed

lemma round_half_even_int: "round_half_even (of_int m) = m"
  by (simp add: round_half_even_def)

lemma bitlen_bounds_rat:
  assumes "0 < n"
  shows "pow2 (bitlen n - 1) \<le> of_int n" and "of_int n < pow2 (bitlen n)"
proof -
  from assms have b: "1 \<le> bitlen n"
    using bitlen_eq_zero_iff [of n] bitlen_nonneg [of n] by linarith
  from bitlen_bounds [OF assms]
  have "(of_int (2 ^ nat (bitlen n - 1)) :: rat) \<le> of_int n"
    and "(of_int n :: rat) < of_int (2 ^ nat (bitlen n))"
    unfolding of_int_le_iff of_int_less_iff by simp_all
  with b show "pow2 (bitlen n - 1) \<le> of_int n" and "of_int n < pow2 (bitlen n)"
    by (simp_all add: pow2_def)
qed

lemma ilog2_bounds:
  assumes "0 < a"
  shows "pow2 (ilog2 a) \<le> a \<and> a < pow2 (ilog2 a + 1)"
proof -
  obtain n d where q: "quotient_of a = (n, d)"
    by (cases "quotient_of a")
  have d: "0 < d" using quotient_of_denom_pos [OF q] .
  have a: "a = of_int n / of_int d" using quotient_of_div [OF q] .
  have n: "0 < n" using assms d unfolding a by (simp add: zero_less_divide_iff)
  define k where "k = bitlen n - bitlen d"
  have "pow2 (k - 1) * of_int d < pow2 (k - 1) * pow2 (bitlen d)"
    using bitlen_bounds_rat(2) [OF d] pow2_pos [of "k - 1"] by simp
  also have "\<dots> = pow2 (bitlen n - 1)"
    unfolding pow2_add [symmetric] k_def by simp
  also have "\<dots> \<le> of_int n"
    using bitlen_bounds_rat(1) [OF n] .
  finally have lower: "pow2 (k - 1) < a"
    unfolding a using d by (simp add: pos_less_divide_eq)
  have "of_int n < pow2 (bitlen n)"
    using bitlen_bounds_rat(2) [OF n] .
  also have "\<dots> = pow2 (k + 1) * pow2 (bitlen d - 1)"
    unfolding pow2_add [symmetric] k_def by simp
  also have "\<dots> \<le> pow2 (k + 1) * of_int d"
    using bitlen_bounds_rat(1) [OF d] pow2_pos [of "k + 1"] by simp
  finally have upper: "a < pow2 (k + 1)"
    unfolding a using d by (simp add: pos_divide_less_eq)
  show ?thesis
    using lower upper
    by (auto simp: ilog2_def q Let_def k_def [symmetric] not_le)
qed

lemma ilog2_unique:
  assumes "pow2 e \<le> a" and "a < pow2 (e + 1)"
  shows "ilog2 a = e"
proof -
  have pos: "0 < a" using assms(1) pow2_pos [of e] by linarith
  from ilog2_bounds [OF pos] have "pow2 (ilog2 a) < pow2 (e + 1)" "pow2 e < pow2 (ilog2 a + 1)"
    using assms by linarith+
  then show ?thesis
    unfolding pow2_less_iff by linarith
qed

lemma pow2_diff: "pow2 i / pow2 j = pow2 (i - j)"
  by (simp add: pow2_powi power_int_diff)

lemma pow2_nonneg_int: "0 \<le> k \<Longrightarrow> pow2 k = of_int (2 ^ nat k)"
  by (simp add: pow2_def)

lemma fl_nearest:
  assumes "fl q = Fin r" and "q \<noteq> 0"
  shows "\<bar>r - q\<bar> \<le> pow2 (max (ilog2 \<bar>q\<bar> - 52) (- 1074)) / 2 \<and>
         (\<exists>m. r = of_int m * pow2 (max (ilog2 \<bar>q\<bar> - 52) (- 1074)))"
proof -
  define u where "u = max (ilog2 \<bar>q\<bar> - 52) (- 1074)"
  define m where "m = round_half_even (\<bar>q\<bar> / pow2 u)"
  have r: "r = sgn q * (of_int m * pow2 u)"
    using assms by (simp add: fl_def Let_def u_def m_def split: if_splits)
  have p: "0 < pow2 u" by (rule pow2_pos)
  have "\<bar>of_int m - \<bar>q\<bar> / pow2 u\<bar> \<le> 1 / 2"
    unfolding m_def by (rule round_half_even_error)
  then have "\<bar>of_int m - \<bar>q\<bar> / pow2 u\<bar> * pow2 u \<le> 1 / 2 * pow2 u"
    using p by (simp only: mult_le_cancel_right_pos)
  moreover have "\<bar>of_int m - \<bar>q\<bar> / pow2 u\<bar> * pow2 u = \<bar>of_int m * pow2 u - \<bar>q\<bar>\<bar>"
  proof -
    have "\<bar>of_int m - \<bar>q\<bar> / pow2 u\<bar> * pow2 u = \<bar>(of_int m - \<bar>q\<bar> / pow2 u) * pow2 u\<bar>"
      using p by (simp add: abs_mult)
    also have "(of_int m - \<bar>q\<bar> / pow2 u) * pow2 u = of_int m * pow2 u - \<bar>q\<bar>"
      using p by (simp add: left_diff_distrib)
    finally show ?thesis .
  qed
  ultimately have e: "\<bar>of_int m * pow2 u - \<bar>q\<bar>\<bar> \<le> pow2 u / 2" by simp
  have "\<bar>r - q\<bar> = \<bar>of_int m * pow2 u - \<bar>q\<bar>\<bar>"
    unfolding r using assms(2) by (cases "0 < q") (simp_all add: sgn_if abs_if)
  with e have "\<bar>r - q\<bar> \<le> pow2 u / 2" by simp
  moreover have "r = of_int ((if 0 < q then 1 else - 1) * m) * pow2 u"
    unfolding r using assms(2) by (simp add: sgn_if)
  ultimately show ?thesis
    unfolding u_def [symmetric] by blast
qed

lemma fl_exact:
  assumes "\<bar>m\<bar> < 2 ^ 53" and "- 1074 \<le> e" and "\<bar>of_int m * pow2 e\<bar> < pow2 1024"
  shows "fl (of_int m * pow2 e) = Fin (of_int m * pow2 e)"
proof (cases "m = 0")
  case True
  then show ?thesis by (simp add: fl_def)
next
  case False
  define q where "q = of_int m * pow2 e"
  define a where "a = \<bar>q\<bar>"
  have a: "a = of_int \<bar>m\<bar> * pow2 e"
    unfolding a_def q_def using pow2_pos [of e] by (simp add: abs_mult)
  have q0: "q \<noteq> 0"
    unfolding q_def using False pow2_pos [of e] by simp
  have apos: "0 < a" unfolding a_def using q0 by simp
  define u where "u = max (ilog2 a - 52) (- 1074)"
  have "(of_int \<bar>m\<bar> :: rat) < of_int (2 ^ 53)"
    unfolding of_int_less_iff using assms(1) .
  then have "of_int \<bar>m\<bar> < pow2 53" by (simp add: pow2_def)
  then have "a < pow2 53 * pow2 e"
    unfolding a using pow2_pos [of e] by simp
  then have "a < pow2 (53 + e)" by (simp add: pow2_add)
  with ilog2_bounds [OF apos] have "pow2 (ilog2 a) < pow2 (53 + e)" by linarith
  then have "ilog2 a < 53 + e" unfolding pow2_less_iff .
  with assms(2) have ue: "u \<le> e" unfolding u_def by simp
  have "a / pow2 u = of_int \<bar>m\<bar> * pow2 (e - u)"
    unfolding a by (simp add: pow2_diff [symmetric])
  also have "\<dots> = of_int (\<bar>m\<bar> * 2 ^ nat (e - u))"
    using ue by (simp add: pow2_nonneg_int)
  finally have "round_half_even (a / pow2 u) = \<bar>m\<bar> * 2 ^ nat (e - u)"
    by (simp only: round_half_even_int)
  then have "of_int (round_half_even (a / pow2 u)) * pow2 u = of_int \<bar>m\<bar> * pow2 (e - u) * pow2 u"
    using ue by (simp add: pow2_nonneg_int)
  also have "\<dots> = a"
    unfolding a by (simp add: mult.assoc pow2_add [symmetric])
  finally have r: "of_int (round_half_even (a / pow2 u)) * pow2 u = a" .
  have "fl q = Fin (sgn q * a)"
    using q0 assms(3) r
    by (simp add: fl_def Let_def a_def [symmetric] u_def [symmetric] q_def [symmetric] not_le)
  also have "sgn q * a = q"
    unfolding a_def by (simp add: sgn_if)
  finally show ?thesis unfolding q_def .
qed

lemma fl_exact_int:
  assumes "\<bar>n\<bar> < 2 ^ 53"
  shows "fl (of_int n) = Fin (of_int n)"
proof -
  have "(of_int \<bar>n\<bar> :: rat) < of_int (2 ^ 53)"
    unfolding of_int_less_iff using assms .
  also have "(of_int (2 ^ 53) :: rat) \<le> of_int (2 ^ 1024)"
    unfolding of_int_le_iff by simp
  finally have "\<bar>of_int n * pow2 0\<bar> < pow2 1024"
    by (simp add: pow2_def)
  from fl_exact [OF assms _ this] show ?thesis
    by (simp add: pow2_def)
qed

lemma counter_increment_exact:
  assumes "n < 2 ^ 52"
  shows "js_add (num n) (Fin 1) = num (Suc n)"
proof -
  have "\<bar>int n + 1\<bar> < 2 ^ 53" using assms by simp
  from fl_exact_int [OF this] show ?thesis
    by (simp add: num_def add.commute)
qed

lemma round_half_even_ge_floor: "\<lfloor>x\<rfloor> \<le> round_half_even x"
  by (simp add: round_half_even_def Let_def)

lemma fl_overflow:
  assumes "pow2 1024 \<le> \<bar>q\<bar>"
  shows "fl q = (if 0 < q then PInf else NInf)"
proof -
  define a where "a = \<bar>q\<bar>"
  have apos: "0 < a"
    using assms pow2_pos [of 1024] unfolding a_def by linarith
  then have q0: "q \<noteq> 0" unfolding a_def by simp
  define E where "E = ilog2 a"
  from ilog2_bounds [OF apos] have lo: "pow2 E \<le> a" and hi: "a < pow2 (E + 1)"
    unfolding E_def by simp_all
  from assms hi have "pow2 1024 < pow2 (E + 1)" unfolding a_def by linarith
  then have E: "1024 \<le> E" unfolding pow2_less_iff by simp
  then have u: "max (E - 52) (- 1074) = E - 52" by simp
  have "pow2 52 = pow2 E / pow2 (E - 52)"
    by (simp add: pow2_diff)
  also have "\<dots> \<le> a / pow2 (E - 52)"
    using lo pow2_pos [of "E - 52"] by (simp add: divide_right_mono)
  finally have "rat_of_int (2 ^ 52) \<le> a / pow2 (E - 52)"
    by (simp add: pow2_def)
  then have "2 ^ 52 \<le> \<lfloor>a / pow2 (E - 52)\<rfloor>"
    by (simp only: le_floor_iff)
  with round_half_even_ge_floor [of "a / pow2 (E - 52)"]
  have "2 ^ 52 \<le> round_half_even (a / pow2 (E - 52))" by linarith
  then have "rat_of_int (2 ^ 52) \<le> of_int (round_half_even (a / pow2 (E - 52)))"
    by (simp only: of_int_le_iff)
  then have "pow2 52 * pow2 (E - 52) \<le> of_int (round_half_even (a / pow2 (E - 52))) * pow2 (E - 52)"
    using pow2_pos [of "E - 52"] by (simp add: pow2_def)
  moreover have "pow2 1024 \<le> pow2 52 * pow2 (E - 52)"
    unfolding pow2_add [symmetric] using E by (intro pow2_mono) simp
  ultimately have "pow2 1024 \<le> of_int (round_half_even (a / pow2 (E - 52))) * pow2 (E - 52)"
    by linarith
  then show ?thesis
    using q0 by (simp add: fl_def Let_def a_def [symmetric] E_def [symmetric] u)
qed

lemma fl_pow2_1023: "fl (pow2 1023) = Fin (pow2 1023)"
proof -
  have "pow2 1023 < pow2 1024" by (rule pow2_strict_mono) simp
  then have "\<bar>of_int 1 * pow2 1023\<bar> < pow2 1024"
    using pow2_pos [of 1023] by simp
  from fl_exact [of 1 1023, OF _ _ this] show ?thesis by simp
qed

lemma fl_pow2_1023_twice: "fl (pow2 1023 + pow2 1023) = PInf"
proof -
  have e: "pow2 1023 + pow2 1023 = pow2 1024"
    using pow2_add [of 1 1023] by (simp add: pow2_def [of 1])
  have "0 < pow2 1024" by (rule pow2_pos)
  then show ?thesis
    unfolding e using fl_overflow [of "pow2 1024"] by simp
qed

section \<open>Reading and writing properties\<close>

lemma obj_get_insert:
  "obj_get k' ob = None \<Longrightarrow>
     obj_get k (obj_insert k' v ob) = (if k = k' then Some v else obj_get k ob)"
  by (induction ob) (auto simp: obj_get_def split: if_splits)

lemma obj_get_set:
  "obj_get k (obj_set k' v ob) = (if k = k' then Some v else obj_get k ob)"
proof (cases "obj_get k' ob")
  case None
  then show ?thesis by (simp add: obj_set_def obj_get_insert)
next
  case (Some w)
  have "map_of (map (\<lambda>(a, b). if a = k' then (a, v) else (a, b)) ob) k
        = (if k = k' then (case map_of ob k of None \<Rightarrow> None | Some _ \<Rightarrow> Some v) else map_of ob k)"
    by (induction ob) auto
  with Some show ?thesis by (auto simp: obj_set_def obj_get_def)
qed

lemma find_iff: "(find P xs \<noteq> None) = (\<exists>x\<in>set xs. P x)"
  by (auto simp: find_None_iff)

section \<open>The guard of the projector\<close>

text \<open>
  C5. When the from date is the to date or a later one, \<open>addProjections\<close> returns the
  object it was given: no \<open>projections\<close> key is attached and no other key changes.
\<close>

theorem guard_returns_input:
  "tm \<le> fm \<Longrightarrow> addProjections ev (Some fm) (Some tm) entries = Some (Inr entries)"
  by (simp add: addProjections_def isSameOrAfter_def)

theorem guard_returns_input_witness:
  "(1464652800000::int) \<le> 1464652800000 \<and>
   addProjections env_2016_05_09 (Some 1464652800000) (Some 1464652800000) report_10h
     = Some (Inr report_10h)"
  using guard_returns_input [of 1464652800000 1464652800000 env_2016_05_09 report_10h]
  by simp

section \<open>The default range of dates\<close>

text \<open>
  C9. When one of the flags \<open>-f\<close> and \<open>-t\<close> is missing, the other one's value is
  dropped: both dates become the start and the end of the current month.
\<close>

theorem defaultRange_one_missing:
  "arg_f a = AUndefined \<or> arg_t a = AUndefined \<Longrightarrow>
     arg_f (defaultRange ms me a) = AStr ms \<and> arg_t (defaultRange ms me a) = AStr me"
  by (auto simp: defaultRange_def)

theorem defaultRange_one_missing_witness:
  "(arg_f \<lparr>arg_f = AStr ''2016-04-11'', arg_t = AUndefined\<rparr> = AUndefined
      \<or> arg_t \<lparr>arg_f = AStr ''2016-04-11'', arg_t = AUndefined\<rparr> = AUndefined) \<and>
   arg_f (defaultRange ''2016-05-01'' ''2016-05-31''
            \<lparr>arg_f = AStr ''2016-04-11'', arg_t = AUndefined\<rparr>) = AStr ''2016-05-01'' \<and>
   arg_t (defaultRange ''2016-05-01'' ''2016-05-31''
            \<lparr>arg_f = AStr ''2016-04-11'', arg_t = AUndefined\<rparr>) = AStr ''2016-05-31''"
  using defaultRange_one_missing [of "\<lparr>arg_f = AStr ''2016-04-11'', arg_t = AUndefined\<rparr>"
      "''2016-05-01''" "''2016-05-31''"]
  by simp

section \<open>An entry for today\<close>

text \<open>
  C6. \<open>haveEntryToday\<close> is true exactly when some entry's timestamp, less the local UTC
  offset in minutes, lies between the start of today and the start of today plus one
  day, both ends included. The start of today is the local midnight of the host's time
  zone, the day added to it is a day of the local calendar, and the offset is the one in
  force when the run starts.
\<close>

theorem haveEntryToday_iff:
  "obj_get ''haveEntryToday'' (aggregateResults ev es cfg)
     = Some (Bool (\<exists>e\<in>set es. startOfDay ev (clock ev) \<le> Date e - utcOffset ev * 60000
                     \<and> Date e - utcOffset ev * 60000 \<le> addDays ev 1 (startOfDay ev (clock ev))))"
proof -
  have "(find (entry_is_today ev) es \<noteq> None)
        = (\<exists>e\<in>set es. startOfDay ev (clock ev) \<le> Date e - utcOffset ev * 60000
                     \<and> Date e - utcOffset ev * 60000 \<le> addDays ev 1 (startOfDay ev (clock ev)))"
    unfolding find_iff by (simp add: entry_is_today_def Let_def)
  then show ?thesis
    by (simp add: aggregateResults_def Let_def obj_get_set del: not_None_eq)
qed

text \<open>A run in Los Angeles at 10:00 on 2016-03-13, the day the clocks go forward there:
  today starts at 08:00 UTC and, being 23 hours long, ends at 07:00 UTC on the 14th, and
  the offset is the one of the summer, seven hours. An entry stamped 00:30 UTC on the
  13th, seven hours added, falls half an hour short of the window; one stamped 00:00 UTC
  on the 14th falls on its end, and one a millisecond later falls out of it.\<close>

theorem haveEntryToday_iff_witness:
  "startOfDay env_2016_03_13 (clock env_2016_03_13) = 1457856000000 \<and>
   addDays env_2016_03_13 1 (startOfDay env_2016_03_13 (clock env_2016_03_13)) = 1457938800000 \<and>
   utcOffset env_2016_03_13 = - 420 \<and>
   obj_get ''haveEntryToday''
     (aggregateResults env_2016_03_13
        [\<lparr>Date = 1457829000000, DurationSeconds = Fin 60, ProjectName = ''A'', TaskName = ''T''\<rparr>]
        cfg_none) = Some (Bool False) \<and>
   obj_get ''haveEntryToday''
     (aggregateResults env_2016_03_13
        [\<lparr>Date = 1457913600000, DurationSeconds = Fin 60, ProjectName = ''A'', TaskName = ''T''\<rparr>]
        cfg_none) = Some (Bool True) \<and>
   obj_get ''haveEntryToday''
     (aggregateResults env_2016_03_13
        [\<lparr>Date = 1457913600001, DurationSeconds = Fin 60, ProjectName = ''A'', TaskName = ''T''\<rparr>]
        cfg_none) = Some (Bool False)"
proof -
  have a: "startOfDay env_2016_03_13 (clock env_2016_03_13) = 1457856000000"
    by code_simp
  have b: "addDays env_2016_03_13 1 (startOfDay env_2016_03_13 (clock env_2016_03_13)) = 1457938800000"
    by code_simp
  have b': "addDays env_2016_03_13 1 1457856000000 = 1457938800000"
    by code_simp
  have c: "utcOffset env_2016_03_13 = - 420"
    by code_simp
  show ?thesis
    using haveEntryToday_iff [of env_2016_03_13
        "[\<lparr>Date = 1457829000000, DurationSeconds = Fin 60, ProjectName = ''A'', TaskName = ''T''\<rparr>]"
        cfg_none]
      haveEntryToday_iff [of env_2016_03_13
        "[\<lparr>Date = 1457913600000, DurationSeconds = Fin 60, ProjectName = ''A'', TaskName = ''T''\<rparr>]"
        cfg_none]
      haveEntryToday_iff [of env_2016_03_13
        "[\<lparr>Date = 1457913600001, DurationSeconds = Fin 60, ProjectName = ''A'', TaskName = ''T''\<rparr>]"
        cfg_none]
    by (simp add: a b b' c)
qed

section \<open>The projection\<close>

lemma signed_inf_nonfinite: "\<not> is_finite (signed_inf a)"
  by (simp add: signed_inf_def)

lemma div_zero_nonfinite: "\<not> is_finite (js_div x (num 0))"
  by (cases x) (simp_all add: num_def signed_inf_nonfinite)

lemma floor_nonfinite: "\<not> is_finite x \<Longrightarrow> \<not> is_finite (js_floor x)"
  by (cases x) simp_all

lemma mul_nonfinite_left: "\<not> is_finite x \<Longrightarrow> \<not> is_finite (js_mul x y)"
  by (cases x; cases y) (simp_all add: signed_inf_nonfinite)

lemma mul_nonfinite_right: "\<not> is_finite y \<Longrightarrow> \<not> is_finite (js_mul x y)"
  by (cases x; cases y) (simp_all add: signed_inf_nonfinite)

text \<open>Past the guard, a run that returns has found \<open>total\<close>, its loop has returned two
  counters, and it has stored under \<open>projections\<close> the projection made from them.\<close>

lemma addProjections_attaches:
  assumes "fm < tm" and "addProjections ev (Some fm) (Some tm) entries = Some (Inr r)"
  shows "\<exists>tot wd wdp. obj_get ''total'' entries = Some tot \<and>
           countWeekDays ev fm tm
             (if val_truthy (obj_get ''haveEntryToday'' entries)
              then addDays ev 1 (startOfDay ev (clock ev)) else startOfDay ev (clock ev)) (0, 0)
             = Some (wd, wdp) \<and>
           obj_get ''projections'' r = Some (Proj (make_projection wd wdp tot))"
  using assms
  by (auto simp: addProjections_def isSameOrAfter_def Let_def obj_get_set
           split: option.splits prod.splits if_splits)

subsection \<open>Counting the week days\<close>










subsection \<open>The figures of the projection\<close>

text \<open>
  C2, as the code has it. With a from date before the to date and some week day past,
  the projection holds: \<open>percentComplete\<close>, the floor of the quotient
  \<open>weekDaysPast / weekDays\<close> times 100, the quotient being rounded to a double before
  it is multiplied; \<open>avgEarningsPerDay\<close>, the floor of the total earnings over the week
  days past; \<open>avgHoursPerDay\<close>, the total hours over the week days past;
  \<open>estimatedEarnings\<close>, the floor of \<open>avgEarningsPerDay\<close> times the week days in range;
  \<open>estimatedHours\<close>, the week days in range times the hours per day. Every operation is
  one on doubles.
\<close>

theorem projection_formulas:
  assumes "fm < tm"
    and "obj_get ''total'' entries = Some (Agg tot)"
    and "addProjections ev (Some fm) (Some tm) entries = Some (Inr r)"
    and "obj_get ''projections'' r = Some (Proj p)"
    and "0 < weekDaysPast p"
  shows "percentComplete p
           = js_floor (js_mul (js_div (num (weekDaysPast p)) (num (weekDays p))) (Fin 100)) \<and>
         avgEarningsPerDay p = js_floor (js_div (earnings tot) (num (weekDaysPast p))) \<and>
         avgHoursPerDay p = js_div (hours tot) (num (weekDaysPast p)) \<and>
         estimatedEarnings p = js_floor (js_mul (avgEarningsPerDay p) (num (weekDays p))) \<and>
         estimatedHours p = js_mul (num (weekDays p)) (js_div (hours tot) (num (weekDaysPast p)))"
proof -
  from addProjections_attaches [OF assms(1,3)] assms(2,4)
  obtain wd wdp where p: "p = make_projection wd wdp (Agg tot)"
    by auto
  show ?thesis
    unfolding p by (simp add: make_projection_def Let_def)
qed

text \<open>Five week days in range, two past, total earnings 100: 50 a day, 250 estimated,
  40 percent complete.\<close>

theorem projection_formulas_witness:
  "(1462172400000::int) < 1462518000000 \<and>
   obj_get ''total'' report_10h = Some (Agg \<lparr>hours = Fin 10, earnings = Fin 100\<rparr>) \<and>
   addProjections env_2016_05_04 (Some 1462172400000) (Some 1462518000000) report_10h
     = Some (Inr (report_10h @ [(''projections'', Proj projection_2_of_5)])) \<and>
   0 < weekDaysPast projection_2_of_5 \<and>
   percentComplete projection_2_of_5 = js_floor (js_mul (js_div (num 2) (num 5)) (Fin 100)) \<and>
   avgEarningsPerDay projection_2_of_5 = js_floor (js_div (Fin 100) (num 2)) \<and>
   avgHoursPerDay projection_2_of_5 = js_div (Fin 10) (num 2) \<and>
   estimatedEarnings projection_2_of_5 = js_floor (js_mul (Fin 50) (num 5)) \<and>
   estimatedHours projection_2_of_5 = js_mul (num 5) (js_div (Fin 10) (num 2)) \<and>
   weekDays projection_2_of_5 = 5 \<and> weekDaysPast projection_2_of_5 = 2 \<and>
   avgEarningsPerDay projection_2_of_5 = Fin 50 \<and>
   estimatedEarnings projection_2_of_5 = Fin 250 \<and>
   percentComplete projection_2_of_5 = Fin 40"
proof -
  have lt: "(1462172400000::int) < 1462518000000" by simp
  have tot: "obj_get ''total'' report_10h = Some (Agg \<lparr>hours = Fin 10, earnings = Fin 100\<rparr>)"
    by (simp add: obj_get_def report_10h_def)
  have run: "addProjections env_2016_05_04 (Some 1462172400000) (Some 1462518000000) report_10h
     = Some (Inr (report_10h @ [(''projections'', Proj projection_2_of_5)]))"
    by code_simp
  have got: "obj_get ''projections'' (report_10h @ [(''projections'', Proj projection_2_of_5)])
               = Some (Proj projection_2_of_5)"
    by (simp add: obj_get_def report_10h_def)
  have pos: "0 < weekDaysPast projection_2_of_5"
    by (simp add: projection_2_of_5_def)
  from projection_formulas [OF lt tot run got pos] lt tot run pos
  show ?thesis
    by (simp add: projection_2_of_5_def)
qed

text \<open>
  C2, as the specification words it, takes \<open>percentComplete\<close> for the floor of
  \<open>100 * weekDaysPast / weekDays\<close>. The ten weeks from Monday 2016-01-04 to Friday
  2016-03-11 have 50 week days; on Friday 2016-02-12, with no entry yet for that day, 29
  are past. The double nearest to 29/50 is below it, its product with 100 rounds to a
  double below 58, and the code reports 57; the specification's formula gives 58,
  whether read on rationals or on doubles.
\<close>

theorem percentComplete_counterexample:
  "addProjections env_2016_02_12 (Some (localMidnight env_2016_02_12 16804))
       (Some (localMidnight env_2016_02_12 16871)) report_232h
     = Some (Inr (report_232h @ [(''projections'', Proj projection_29_of_50)])) \<and>
   weekDays projection_29_of_50 = 50 \<and> weekDaysPast projection_29_of_50 = 29 \<and>
   percentComplete projection_29_of_50 = Fin 57 \<and>
   percentComplete projection_29_of_50
     \<noteq> Fin (of_int \<lfloor>100 * of_nat (weekDaysPast projection_29_of_50)
                        / of_nat (weekDays projection_29_of_50) :: rat\<rfloor>) \<and>
   percentComplete projection_29_of_50
     \<noteq> js_floor (js_div (js_mul (Fin 100) (num (weekDaysPast projection_29_of_50)))
                          (num (weekDays projection_29_of_50)))"
proof -
  have run: "addProjections env_2016_02_12 (Some (localMidnight env_2016_02_12 16804))
       (Some (localMidnight env_2016_02_12 16871)) report_232h
     = Some (Inr (report_232h @ [(''projections'', Proj projection_29_of_50)]))"
    by code_simp
  have js: "js_floor (js_div (js_mul (Fin 100) (num 29)) (num 50)) = Fin 58"
    by code_simp
  show ?thesis
    using run js by (simp add: projection_29_of_50_def)
qed

subsection \<open>No week day past\<close>

text \<open>
  C7. Nothing guards the divisions by \<open>weekDaysPast\<close>: whenever the from date is before
  the to date and no week day is past, the four figures that divide by it are infinite
  or NaN. The run on Monday 2016-05-09 for the range from Saturday 2016-05-07 to Friday
  2016-05-13, with one hour entered on the Saturday, is such an input.
\<close>

theorem zero_elapsed_nonfinite:
  assumes "fm < tm"
    and "addProjections ev (Some fm) (Some tm) entries = Some (Inr r)"
    and "obj_get ''projections'' r = Some (Proj p)"
    and "weekDaysPast p = 0"
  shows "\<not> is_finite (avgEarningsPerDay p) \<and> \<not> is_finite (avgHoursPerDay p) \<and>
         \<not> is_finite (estimatedEarnings p) \<and> \<not> is_finite (estimatedHours p)"
proof -
  from addProjections_attaches [OF assms(1,2)] assms(3)
  obtain wd wdp tot where p: "p = make_projection wd wdp tot"
    by auto
  with assms(4) have z: "wdp = 0"
    by (simp add: make_projection_def Let_def)
  show ?thesis
    unfolding p z
    by (simp add: make_projection_def Let_def div_zero_nonfinite floor_nonfinite
          mul_nonfinite_left mul_nonfinite_right)
qed

theorem zero_elapsed_nonfinite_witness:
  "(1462579200000::int) < 1463097600000 \<and>
   addProjections env_2016_05_09 (Some 1462579200000) (Some 1463097600000) report_1h
     = Some (Inr (report_1h @ [(''projections'', Proj projection_0_of_5)])) \<and>
   weekDaysPast projection_0_of_5 = 0 \<and>
   \<not> is_finite (avgEarningsPerDay projection_0_of_5) \<and>
   \<not> is_finite (avgHoursPerDay projection_0_of_5) \<and>
   \<not> is_finite (estimatedEarnings projection_0_of_5) \<and>
   \<not> is_finite (estimatedHours projection_0_of_5)"
proof -
  have lt: "(1462579200000::int) < 1463097600000" by simp
  have run: "addProjections env_2016_05_09 (Some 1462579200000) (Some 1463097600000) report_1h
     = Some (Inr (report_1h @ [(''projections'', Proj projection_0_of_5)]))"
    by code_simp
  have got: "obj_get ''projections'' (report_1h @ [(''projections'', Proj projection_0_of_5)])
               = Some (Proj projection_0_of_5)"
    by (simp add: obj_get_def report_1h_def)
  have z: "weekDaysPast projection_0_of_5 = 0"
    by (simp add: projection_0_of_5_def)
  from zero_elapsed_nonfinite [OF lt run got z] lt run z
  show ?thesis
    by simp
qed

section \<open>The groups and their aggregates\<close>

text \<open>What \<open>groupBy\<close> builds: under every project name that occurs, the entries of that
  project in their order, every name once; and, when no name is an array index, the
  names in the order of their first entries.\<close>

lemma obj_get_None_iff: "obj_get k ob = None \<longleftrightarrow> k \<notin> set (map fst ob)"
  by (simp add: obj_get_def map_of_eq_None_iff)

lemma set_obj_insert: "set (obj_insert k v ob) = insert (k, v) (set ob)"
  by (induction ob) (auto split: if_splits)

lemma keys_obj_insert: "set (map fst (obj_insert k v ob)) = insert k (set (map fst ob))"
  by (simp add: set_obj_insert)

lemma distinct_obj_insert:
  "k \<notin> set (map fst ob) \<Longrightarrow> distinct (map fst ob) \<Longrightarrow> distinct (map fst (obj_insert k v ob))"
proof (induction ob)
  case Nil
  then show ?case by simp
next
  case (Cons a ob)
  have "fst a \<notin> set (map fst (obj_insert k v ob))"
    using Cons.prems unfolding keys_obj_insert by auto
  with Cons show ?case by (cases a) auto
qed

lemma keys_obj_replace:
  "map fst (map (\<lambda>(k', v'). if k' = k then (k', v) else (k', v')) ob) = map fst ob"
  by (induction ob) auto

lemma keys_obj_set:
  "map fst (obj_set k v ob)
     = (if k \<in> set (map fst ob) then map fst ob else map fst (obj_insert k v ob))"
  unfolding obj_set_def obj_get_None_iff
  by (simp only: keys_obj_replace if_not_P if_P split: if_splits) simp

lemma distinct_obj_set:
  "distinct (map fst ob) \<Longrightarrow> distinct (map fst (obj_set k v ob))"
  by (simp add: keys_obj_set distinct_obj_insert)

lemma obj_insert_append: "\<not> is_array_index k \<Longrightarrow> obj_insert k v ob = ob @ [(k, v)]"
  by (induction ob) auto

lemma groupBy_snoc:
  "groupBy (es @ [e]) =
     (case obj_get (ProjectName e) (groupBy es) of
        Some items \<Rightarrow> obj_set (ProjectName e) (items @ [e]) (groupBy es)
      | None \<Rightarrow> obj_set (ProjectName e) [e] (groupBy es))"
  unfolding groupBy_def by simp

lemma groupBy_get:
  "obj_get p (groupBy es)
     = (if p \<in> ProjectName ` set es then Some (project_entries es p) else None)"
proof (induction es arbitrary: p rule: rev_induct)
  case Nil
  show ?case by (simp add: groupBy_def obj_get_def)
next
  case (snoc e es)
  show ?case
  proof (cases "ProjectName e \<in> ProjectName ` set es")
    case True
    then have "obj_get (ProjectName e) (groupBy es) = Some (project_entries es (ProjectName e))"
      by (simp add: snoc.IH)
    then show ?thesis
      unfolding groupBy_snoc
      by (auto simp: snoc.IH obj_get_set project_entries_def)
  next
    case False
    then have "obj_get (ProjectName e) (groupBy es) = None"
      by (simp add: snoc.IH)
    then show ?thesis
      unfolding groupBy_snoc using False
      by (auto simp: snoc.IH obj_get_set project_entries_def filter_empty_conv image_iff)
  qed
qed

lemma groupBy_keys: "set (map fst (groupBy es)) = ProjectName ` set es"
proof -
  have "k \<in> set (map fst (groupBy es)) \<longleftrightarrow> k \<in> ProjectName ` set es" for k
    using groupBy_get [of k es] obj_get_None_iff [of k "groupBy es"]
    by (auto split: if_splits)
  then show ?thesis by blast
qed

lemma distinct_groupBy: "distinct (map fst (groupBy es))"
proof (induction es rule: rev_induct)
  case Nil
  show ?case by (simp add: groupBy_def)
next
  case (snoc e es)
  then show ?case
    unfolding groupBy_snoc by (auto simp: distinct_obj_set split: option.splits)
qed

lemma groupBy_member:
  assumes "(k, items) \<in> set (groupBy es)"
  shows "items = project_entries es k"
proof -
  from assms have "obj_get k (groupBy es) = Some items"
    by (simp add: obj_get_def distinct_groupBy)
  then show ?thesis
    by (simp add: groupBy_get split: if_splits)
qed

lemma groupBy_as_map:
  "groupBy es = map (\<lambda>k. (k, project_entries es k)) (map fst (groupBy es))"
proof -
  have "map (\<lambda>kv. (fst kv, project_entries es (fst kv))) (groupBy es) = map (\<lambda>kv. kv) (groupBy es)"
    by (rule map_cong) (auto dest: groupBy_member)
  then show ?thesis by (simp add: comp_def)
qed

lemma set_insertion_order [simp]: "set (insertion_order xs) = set xs"
  by (induction xs) auto

lemma insertion_order_snoc:
  "insertion_order (xs @ [x]) = (if x \<in> set xs then insertion_order xs else insertion_order xs @ [x])"
  by (induction xs) (auto simp: removeAll_append)

lemma groupBy_keys_insertion_order:
  assumes "\<forall>e\<in>set es. \<not> is_array_index (ProjectName e)"
  shows "map fst (groupBy es) = insertion_order (map ProjectName es)"
  using assms
proof (induction es rule: rev_induct)
  case Nil
  show ?case by (simp add: groupBy_def)
next
  case (snoc e es)
  then have IH: "map fst (groupBy es) = insertion_order (map ProjectName es)"
    and ni: "\<not> is_array_index (ProjectName e)" by simp_all
  show ?case
  proof (cases "ProjectName e \<in> ProjectName ` set es")
    case True
    then show ?thesis
      unfolding groupBy_snoc
      by (simp add: groupBy_get keys_obj_set groupBy_keys IH insertion_order_snoc)
  next
    case False
    then show ?thesis
      unfolding groupBy_snoc
      by (simp add: groupBy_get keys_obj_set groupBy_keys IH insertion_order_snoc
            obj_insert_append ni)
  qed
qed

lemma obj_get_mapValues:
  "obj_get k (mapValues ob g) = map_option (\<lambda>v. g v k) (obj_get k ob)"
  by (induction ob) (auto simp: obj_get_def mapValues_def)

lemma keys_mapValues: "map fst (mapValues ob g) = map fst ob"
  by (induction ob) (auto simp: mapValues_def)

lemma aggregated_get:
  "obj_get p (aggregated cfg es)
     = (if p \<in> ProjectName ` set es
        then Some (project_aggregate cfg (project_entries es p) p) else None)"
  by (simp add: aggregated_def obj_get_mapValues groupBy_get)

lemma aggregated_values:
  "values_of (aggregated cfg es)
     = map (\<lambda>k. project_aggregate cfg (project_entries es k) k) (map fst (groupBy es))"
proof -
  have "map (\<lambda>kv. project_aggregate cfg (snd kv) (fst kv)) (groupBy es)
        = map (\<lambda>kv. project_aggregate cfg (project_entries es (fst kv)) (fst kv)) (groupBy es)"
    by (rule map_cong) (auto dest: groupBy_member)
  then show ?thesis
    by (simp add: aggregated_def values_of_def mapValues_def comp_def case_prod_unfold)
qed

lemma aggregateResults_total:
  "obj_get ''total'' (aggregateResults ev es cfg)
     = Some (Agg (sum_aggregates (values_of (aggregated cfg es))))"
  by (simp add: aggregateResults_def Let_def obj_get_set)

lemma aggregateResults_flag:
  "\<exists>b. obj_get ''haveEntryToday'' (aggregateResults ev es cfg) = Some (Bool b)"
  by (auto simp: aggregateResults_def Let_def obj_get_set)

lemma aggregateResults_project:
  "p \<noteq> ''total'' \<Longrightarrow> p \<noteq> ''haveEntryToday'' \<Longrightarrow>
     obj_get p (aggregateResults ev es cfg) = map_option Agg (obj_get p (aggregated cfg es))"
  by (simp add: aggregateResults_def Let_def obj_get_set obj_get_mapValues)

lemma hours_foldl:
  "hours (foldl (\<lambda>memo a. \<lparr>hours = js_add (hours memo) (hours a),
                             earnings = js_add (earnings memo) (earnings a)\<rparr>) m ags)
     = foldl js_add (hours m) (map hours ags)"
  by (induction ags arbitrary: m) simp_all

lemma earnings_foldl:
  "earnings (foldl (\<lambda>memo a. \<lparr>hours = js_add (hours memo) (hours a),
                                earnings = js_add (earnings memo) (earnings a)\<rparr>) m ags)
     = foldl js_add (earnings m) (map earnings ags)"
  by (induction ags arbitrary: m) simp_all

lemma sum_aggregates_fields:
  "sum_aggregates ags = \<lparr>hours = foldl js_add (Fin 0) (map hours ags),
                         earnings = foldl js_add (Fin 0) (map earnings ags)\<rparr>"
  by (simp add: sum_aggregates_def hours_foldl earnings_foldl)

subsection \<open>The total\<close>

text \<open>
  C1, as the code has it. When no project name is an array index, the \<open>total\<close> of the
  returned object is the sum of the hours and the sum of the earnings of the per-project
  aggregates, each added up from 0 in double arithmetic in the insertion order of the
  groups, the order of the projects' first entries.
\<close>

theorem total_in_insertion_order:
  assumes "\<forall>e\<in>set es. \<not> is_array_index (ProjectName e)"
  shows "obj_get ''total'' (aggregateResults ev es cfg)
     = Some (Agg \<lparr>hours = foldl js_add (Fin 0)
                     (map (\<lambda>p. hours (project_aggregate cfg (project_entries es p) p))
                          (insertion_order (map ProjectName es))),
                   earnings = foldl js_add (Fin 0)
                     (map (\<lambda>p. earnings (project_aggregate cfg (project_entries es p) p))
                          (insertion_order (map ProjectName es)))\<rparr>)"
  by (simp add: aggregateResults_total aggregated_values sum_aggregates_fields
        groupBy_keys_insertion_order [OF assms] comp_def)

text \<open>Entries for B, A, B and C: the groups are visited in the order B, A, C.\<close>

theorem total_in_insertion_order_witness:
  "list_all (\<lambda>e. \<not> is_array_index (ProjectName e)) entries_B_A_B_C \<and>
   insertion_order (map ProjectName entries_B_A_B_C) = [''B'', ''A'', ''C''] \<and>
   obj_get ''total'' (aggregateResults env_2016_05_09 entries_B_A_B_C cfg_A10)
     = Some (Agg \<lparr>hours = Fin (3602879701896397 / 4503599627370496), earnings = Fin 3\<rparr>) \<and>
   Fin (3602879701896397 / 4503599627370496)
     = foldl js_add (Fin 0)
         (map (\<lambda>p. hours (project_aggregate cfg_A10 (project_entries entries_B_A_B_C p) p))
            (insertion_order (map ProjectName entries_B_A_B_C))) \<and>
   Fin 3
     = foldl js_add (Fin 0)
         (map (\<lambda>p. earnings (project_aggregate cfg_A10 (project_entries entries_B_A_B_C p) p))
            (insertion_order (map ProjectName entries_B_A_B_C)))"
proof -
  have names: "\<forall>e\<in>set entries_B_A_B_C. \<not> is_array_index (ProjectName e)"
    by code_simp
  have names': "list_all (\<lambda>e. \<not> is_array_index (ProjectName e)) entries_B_A_B_C"
    by code_simp
  have order: "insertion_order (map ProjectName entries_B_A_B_C) = [''B'', ''A'', ''C'']"
    by code_simp
  have run: "obj_get ''total'' (aggregateResults env_2016_05_09 entries_B_A_B_C cfg_A10)
     = Some (Agg \<lparr>hours = Fin (3602879701896397 / 4503599627370496), earnings = Fin 3\<rparr>)"
    by code_simp
  from total_in_insertion_order [OF names, of env_2016_05_09 cfg_A10] names' order run
  show ?thesis
    by simp
qed

text \<open>
  C1, as the specification words it, has the groups visited in insertion order for
  every list of entries. A project name that is an array index is enumerated before the
  other names, whenever it was inserted: for entries of 0.1, 0.3 and 0.2 hours on the
  projects A, 1 and 2 the code adds 0.3, 0.2 and 0.1 and reports the double nearest to
  0.6, while the sum in insertion order is the next double above it.
\<close>

theorem total_order_counterexample:
  "map ProjectName entries_A_1_2 = [''A'', ''1'', ''2''] \<and>
   insertion_order (map ProjectName entries_A_1_2) = [''A'', ''1'', ''2''] \<and>
   map fst (aggregated cfg_none entries_A_1_2) = [''1'', ''2'', ''A''] \<and>
   obj_get ''total'' (aggregateResults env_2016_05_09 entries_A_1_2 cfg_none)
     = Some (Agg \<lparr>hours = Fin (5404319552844595 / 9007199254740992), earnings = Fin 0\<rparr>) \<and>
   foldl js_add (Fin 0)
     (map (\<lambda>p. hours (project_aggregate cfg_none (project_entries entries_A_1_2 p) p))
        (insertion_order (map ProjectName entries_A_1_2)))
     = Fin (1351079888211149 / 2251799813685248) \<and>
   Fin (5404319552844595 / 9007199254740992) \<noteq> Fin (1351079888211149 / 2251799813685248)"
proof -
  have a: "map ProjectName entries_A_1_2 = [''A'', ''1'', ''2'']"
    by code_simp
  have b: "insertion_order (map ProjectName entries_A_1_2) = [''A'', ''1'', ''2'']"
    by code_simp
  have c: "map fst (aggregated cfg_none entries_A_1_2) = [''1'', ''2'', ''A'']"
    by code_simp
  have d: "obj_get ''total'' (aggregateResults env_2016_05_09 entries_A_1_2 cfg_none)
     = Some (Agg \<lparr>hours = Fin (5404319552844595 / 9007199254740992), earnings = Fin 0\<rparr>)"
    by code_simp
  have e: "foldl js_add (Fin 0)
     (map (\<lambda>p. hours (project_aggregate cfg_none (project_entries entries_A_1_2 p) p))
        (insertion_order (map ProjectName entries_A_1_2)))
     = Fin (1351079888211149 / 2251799813685248)"
    by code_simp
  show ?thesis
    using a b c d e by simp
qed

subsection \<open>Hours, rate and earnings of a project\<close>

lemma durations_foldl:
  "foldl (\<lambda>memo i. js_add memo (DurationSeconds i)) m items
     = foldl js_add m (map DurationSeconds items)"
  by (induction items arbitrary: m) simp_all

lemma resolve_rate_configured:
  assumes "p \<notin> set object_prototype_keys"
    and "\<forall>rs. rates cfg = Some rs \<longrightarrow>
           rs p \<noteq> Some (Fin 0) \<and> rs p \<noteq> Some NaN \<and> rs ''_default'' \<noteq> Some NaN"
  shows "resolve_rate cfg p = configured_rate cfg p"
proof (cases "rates cfg")
  case None
  then show ?thesis by (simp add: resolve_rate_def configured_rate_def)
next
  case (Some rs)
  with assms(2) have a: "rs p \<noteq> Some (Fin 0)" "rs p \<noteq> Some NaN" "rs ''_default'' \<noteq> Some NaN"
    by simp_all
  have d: "''_default'' \<notin> set object_prototype_keys"
    by (simp add: object_prototype_keys_def)
  have t: "num_truthy x \<longleftrightarrow> x \<noteq> Fin 0 \<and> x \<noteq> NaN" for x
    by (cases x) auto
  show ?thesis
    using a assms(1) d
    by (auto simp: resolve_rate_def configured_rate_def Some rates_get_def t
             split: option.splits)
qed

text \<open>
  C3, as the code has it. For every project group, the hours are the summed seconds
  divided by 60 and then by 60 again, and the earnings are the rate times the hours, all
  in double arithmetic; the rate is \<open>rates[project]\<close> if present, else
  \<open>rates._default\<close> if present, else 0, for a project whose name is no property of
  \<open>Object.prototype\<close> and whose own rate, when configured, is not zero, the rates being
  numbers of a JSON text (never NaN). The aggregate is the value of the project's key in
  \<open>aggregated\<close>, and in the returned object too unless the key is \<open>total\<close> or
  \<open>haveEntryToday\<close>.
\<close>

theorem project_hours_and_earnings:
  assumes "p \<in> ProjectName ` set es"
    and "p \<notin> set object_prototype_keys"
    and "\<forall>rs. rates cfg = Some rs \<longrightarrow>
           rs p \<noteq> Some (Fin 0) \<and> rs p \<noteq> Some NaN \<and> rs ''_default'' \<noteq> Some NaN"
  shows "obj_get p (aggregated cfg es)
           = Some \<lparr>hours = project_hours es p,
                    earnings = js_mul (configured_rate cfg p) (project_hours es p)\<rparr> \<and>
         (p = ''total'' \<or> p = ''haveEntryToday'' \<or>
          obj_get p (aggregateResults ev es cfg)
            = Some (Agg \<lparr>hours = project_hours es p,
                          earnings = js_mul (configured_rate cfg p) (project_hours es p)\<rparr>))"
proof -
  have agg: "obj_get p (aggregated cfg es)
      = Some \<lparr>hours = project_hours es p,
               earnings = js_mul (configured_rate cfg p) (project_hours es p)\<rparr>"
    using assms(1)
    by (simp add: aggregated_get project_aggregate_def Let_def durations_foldl
          resolve_rate_configured [OF assms(2,3)] project_hours_def)
  show ?thesis
  proof (cases "p = ''total'' \<or> p = ''haveEntryToday''")
    case True
    with agg show ?thesis by blast
  next
    case False
    then have "obj_get p (aggregateResults ev es cfg)
                 = map_option Agg (obj_get p (aggregated cfg es))"
      by (simp add: aggregateResults_project)
    with agg show ?thesis by simp
  qed
qed

text \<open>One entry of 3600 seconds on project A with the rate 10 for A: one hour, earnings
  10.\<close>

theorem project_hours_and_earnings_witness:
  "aggregateResults env_2016_05_09 [work ''A'' 3600] cfg_A10 = report_1h \<and>
   obj_get ''A'' (aggregateResults env_2016_05_09 [work ''A'' 3600] cfg_A10)
     = Some (Agg \<lparr>hours = Fin 1, earnings = Fin 10\<rparr>) \<and>
   project_hours [work ''A'' 3600] ''A'' = Fin 1 \<and>
   configured_rate cfg_A10 ''A'' = Fin 10 \<and>
   js_mul (Fin 10) (Fin 1) = Fin 10"
proof -
  have p: "''A'' \<in> ProjectName ` set [work ''A'' 3600]"
    by (simp add: work_def)
  have k: "''A'' \<notin> set object_prototype_keys"
    by (simp add: object_prototype_keys_def)
  have r: "\<forall>rs. rates cfg_A10 = Some rs \<longrightarrow>
             rs ''A'' \<noteq> Some (Fin 0) \<and> rs ''A'' \<noteq> Some NaN \<and> rs ''_default'' \<noteq> Some NaN"
    by (auto simp: cfg_A10_def)
  have run: "aggregateResults env_2016_05_09 [work ''A'' 3600] cfg_A10 = report_1h"
    by code_simp
  have h: "project_hours [work ''A'' 3600] ''A'' = Fin 1"
    by code_simp
  have c: "configured_rate cfg_A10 ''A'' = Fin 10"
    by (simp add: configured_rate_def cfg_A10_def)
  have m: "js_mul (Fin 10) (Fin 1) = Fin 10"
    by code_simp
  from project_hours_and_earnings [OF p k r, of env_2016_05_09] run h c m
  show ?thesis
    by simp
qed

text \<open>
  C3, as the specification words it, divides by 3600 and takes the rate of the project
  whenever it is present. Five seconds divided by 60 twice are the double below the one
  that a single division by 3600 gives. A rate of 0 configured for project A beside a
  default rate of 50 is present and yet passed over by the truthiness test: the hour on
  A earns 50, where the specification's rule gives 0.
\<close>

theorem rate_and_hours_counterexample:
  "obj_get ''A'' (aggregateResults env_2016_05_09 [work ''A'' 5] cfg_none)
     = Some (Agg \<lparr>hours = Fin (3202559735019019 / 2305843009213693952), earnings = Fin 0\<rparr>) \<and>
   js_div (Fin 5) (Fin 3600) = Fin (6405119470038039 / 4611686018427387904) \<and>
   Fin (3202559735019019 / 2305843009213693952) \<noteq> Fin (6405119470038039 / 4611686018427387904) \<and>
   obj_get ''A'' (aggregateResults env_2016_05_09 [work ''A'' 3600] cfg_A0)
     = Some (Agg \<lparr>hours = Fin 1, earnings = Fin 50\<rparr>) \<and>
   configured_rate cfg_A0 ''A'' = Fin 0 \<and>
   js_mul (configured_rate cfg_A0 ''A'') (Fin 1) = Fin 0 \<and>
   Fin 50 \<noteq> Fin 0"
proof -
  have a: "obj_get ''A'' (aggregateResults env_2016_05_09 [work ''A'' 5] cfg_none)
     = Some (Agg \<lparr>hours = Fin (3202559735019019 / 2305843009213693952), earnings = Fin 0\<rparr>)"
    by code_simp
  have b: "js_div (Fin 5) (Fin 3600) = Fin (6405119470038039 / 4611686018427387904)"
    by code_simp
  have c: "obj_get ''A'' (aggregateResults env_2016_05_09 [work ''A'' 3600] cfg_A0)
     = Some (Agg \<lparr>hours = Fin 1, earnings = Fin 50\<rparr>)"
    by code_simp
  have d: "configured_rate cfg_A0 ''A'' = Fin 0"
    by (simp add: configured_rate_def cfg_A0_def)
  have e: "js_mul (Fin 0) (Fin 1) = Fin 0"
    by (simp add: fl_def)
  show ?thesis
    using a b c d e by simp
qed

subsection \<open>A project named total\<close>

lemma distinct_aggregateResults: "distinct (map fst (aggregateResults ev es cfg))"
  by (simp add: aggregateResults_def Let_def distinct_obj_set keys_mapValues aggregated_def
        distinct_groupBy)

text \<open>
  C10. When some entry's project is named \<open>total\<close>, the per-project object holds that
  project's aggregate under the key \<open>total\<close>; the returned object holds under that key
  the synthesized sum over all groups instead, and no key twice: the per-project map and
  the synthesized keys share one namespace, and the project's own aggregate is gone.
\<close>

theorem total_overwrites_project:
  assumes "\<exists>e\<in>set es. ProjectName e = ''total''"
  shows "obj_get ''total'' (aggregated cfg es)
           = Some (project_aggregate cfg (project_entries es ''total'') ''total'') \<and>
         obj_get ''total'' (aggregateResults ev es cfg)
           = Some (Agg (sum_aggregates (values_of (aggregated cfg es)))) \<and>
         distinct (map fst (aggregateResults ev es cfg))"
proof -
  from assms have "''total'' \<in> ProjectName ` set es" by force
  then show ?thesis
    by (simp add: aggregated_get aggregateResults_total distinct_aggregateResults)
qed

text \<open>One hour on the project named total and two hours on A: the returned \<open>total\<close> is
  the three hours of both.\<close>

theorem total_overwrites_project_witness:
  "(\<exists>e\<in>set entries_total_A. ProjectName e = ''total'') \<and>
   obj_get ''total'' (aggregated cfg_A10 entries_total_A)
     = Some \<lparr>hours = Fin 1, earnings = Fin 0\<rparr> \<and>
   project_aggregate cfg_A10 (project_entries entries_total_A ''total'') ''total''
     = \<lparr>hours = Fin 1, earnings = Fin 0\<rparr> \<and>
   sum_aggregates (values_of (aggregated cfg_A10 entries_total_A))
     = \<lparr>hours = Fin 3, earnings = Fin 20\<rparr> \<and>
   aggregateResults env_2016_05_09 entries_total_A cfg_A10
     = [(''total'', Agg \<lparr>hours = Fin 3, earnings = Fin 20\<rparr>),
        (''A'', Agg \<lparr>hours = Fin 2, earnings = Fin 20\<rparr>),
        (''haveEntryToday'', Bool False)]"
proof -
  have ex: "\<exists>e\<in>set entries_total_A. ProjectName e = ''total''"
    by (simp add: entries_total_A_def work_def)
  have pa: "project_aggregate cfg_A10 (project_entries entries_total_A ''total'') ''total''
     = \<lparr>hours = Fin 1, earnings = Fin 0\<rparr>"
    by code_simp
  have sa: "sum_aggregates (values_of (aggregated cfg_A10 entries_total_A))
     = \<lparr>hours = Fin 3, earnings = Fin 20\<rparr>"
    by code_simp
  have run: "aggregateResults env_2016_05_09 entries_total_A cfg_A10
     = [(''total'', Agg \<lparr>hours = Fin 3, earnings = Fin 20\<rparr>),
        (''A'', Agg \<lparr>hours = Fin 2, earnings = Fin 20\<rparr>),
        (''haveEntryToday'', Bool False)]"
    by code_simp
  from total_overwrites_project [OF ex, of cfg_A10 env_2016_05_09] ex pa sa run
  show ?thesis
    by simp
qed

subsection \<open>Aggregates are not negative\<close>

lemma round_half_even_nonneg: "0 \<le> x \<Longrightarrow> 0 \<le> round_half_even x"
  by (auto simp: round_half_even_def Let_def)

lemma fl_nonneg: "0 \<le> q \<Longrightarrow> js_nonneg (fl q)"
proof -
  assume q: "0 \<le> q"
  have "0 \<le> of_int (round_half_even (\<bar>q\<bar> / pow2 u)) * pow2 u" for u
    using round_half_even_nonneg [of "\<bar>q\<bar> / pow2 u"] pow2_pos [of u]
    by (simp add: less_imp_le)
  with q show ?thesis
    by (auto simp: fl_def Let_def sgn_if)
qed

lemma js_add_nonneg: "js_nonneg x \<Longrightarrow> js_nonneg y \<Longrightarrow> js_nonneg (js_add x y)"
  by (cases x; cases y) (simp_all add: fl_nonneg)

lemma js_div_60_nonneg: "js_nonneg x \<Longrightarrow> js_nonneg (js_div x (Fin 60))"
  by (cases x) (simp_all add: fl_nonneg)

lemma js_mul_nonneg_finite:
  "js_nonneg x \<Longrightarrow> is_finite x \<Longrightarrow> js_nonneg y \<Longrightarrow> is_finite y \<Longrightarrow> js_nonneg (js_mul x y)"
  by (cases x; cases y) (simp_all add: fl_nonneg)

lemma foldl_js_add_nonneg:
  "js_nonneg m \<Longrightarrow> \<forall>x\<in>set xs. js_nonneg x \<Longrightarrow> js_nonneg (foldl js_add m xs)"
  by (induction xs arbitrary: m) (simp_all add: js_add_nonneg)

lemma nonneg_integer_nonneg: "nonneg_integer x \<Longrightarrow> js_nonneg x"
  by (cases x) (simp_all add: nonneg_integer_def)

lemma project_hours_nonneg:
  assumes "\<forall>e\<in>set es. nonneg_integer (DurationSeconds e)"
  shows "js_nonneg (project_hours es p)"
proof -
  have "js_nonneg (foldl js_add (Fin 0) (map DurationSeconds (project_entries es p)))"
    using assms
    by (intro foldl_js_add_nonneg) (auto simp: project_entries_def nonneg_integer_nonneg)
  then show ?thesis
    by (simp add: project_hours_def js_div_60_nonneg)
qed

lemma resolve_rate_nonneg:
  assumes "\<forall>rs k r. rates cfg = Some rs \<longrightarrow> rs k = Some r \<longrightarrow> js_nonneg r \<and> is_finite r"
    and "p \<notin> set object_prototype_keys"
  shows "js_nonneg (resolve_rate cfg p) \<and> is_finite (resolve_rate cfg p)"
proof (cases "rates cfg")
  case None
  then show ?thesis by (simp add: resolve_rate_def)
next
  case (Some rs)
  have d: "''_default'' \<notin> set object_prototype_keys"
    by (simp add: object_prototype_keys_def)
  have r: "rs k = Some r \<Longrightarrow> js_nonneg r \<and> is_finite r" for k r
    using assms(1) Some by blast
  show ?thesis
    using assms(2) d r [of p] r [of "''_default''"]
    by (auto simp: resolve_rate_def Some rates_get_def split: option.splits)
qed

lemma project_aggregate_hours:
  "hours (project_aggregate cfg (project_entries es p) p) = project_hours es p"
  by (simp add: project_aggregate_def Let_def durations_foldl project_hours_def)

lemma project_aggregate_earnings:
  "earnings (project_aggregate cfg (project_entries es p) p)
     = js_mul (resolve_rate cfg p) (project_hours es p)"
  by (simp add: project_aggregate_def Let_def durations_foldl project_hours_def)

lemma project_aggregate_nonneg:
  assumes "\<forall>e\<in>set es. nonneg_integer (DurationSeconds e)"
    and "\<forall>rs k r. rates cfg = Some rs \<longrightarrow> rs k = Some r \<longrightarrow> js_nonneg r \<and> is_finite r"
    and "\<forall>e\<in>set es. ProjectName e \<notin> set object_prototype_keys"
    and "\<forall>e\<in>set es. is_finite (project_hours es (ProjectName e))"
    and "p \<in> ProjectName ` set es"
  shows "js_nonneg (hours (project_aggregate cfg (project_entries es p) p)) \<and>
         js_nonneg (earnings (project_aggregate cfg (project_entries es p) p))"
proof -
  from assms(3,5) have np: "p \<notin> set object_prototype_keys" by auto
  from assms(4,5) have fin: "is_finite (project_hours es p)" by auto
  show ?thesis
    unfolding project_aggregate_hours project_aggregate_earnings
    using project_hours_nonneg [OF assms(1), of p] resolve_rate_nonneg [OF assms(2) np] fin
    by (simp add: js_mul_nonneg_finite)
qed

text \<open>
  C8, as the code has it. When every entry's seconds are an integer that is not
  negative, every configured rate is a finite number that is not negative, no project
  is named like a property of \<open>Object.prototype\<close> and no project's hours overflow to
  infinity, then every aggregate of the returned object, the total included, has hours
  and earnings that are not negative.
\<close>

theorem aggregates_nonnegative:
  assumes "\<forall>e\<in>set es. nonneg_integer (DurationSeconds e)"
    and "\<forall>rs k r. rates cfg = Some rs \<longrightarrow> rs k = Some r \<longrightarrow> js_nonneg r \<and> is_finite r"
    and "\<forall>e\<in>set es. ProjectName e \<notin> set object_prototype_keys"
    and "\<forall>e\<in>set es. is_finite (project_hours es (ProjectName e))"
  shows "\<forall>k a. obj_get k (aggregateResults ev es cfg) = Some (Agg a) \<longrightarrow>
           js_nonneg (hours a) \<and> js_nonneg (earnings a)"
proof (intro allI impI)
  fix k a
  assume get: "obj_get k (aggregateResults ev es cfg) = Some (Agg a)"
  note pa = project_aggregate_nonneg [OF assms]
  show "js_nonneg (hours a) \<and> js_nonneg (earnings a)"
  proof (cases "k = ''total''")
    case True
    with get have a: "a = sum_aggregates (values_of (aggregated cfg es))"
      by (simp add: aggregateResults_total)
    have "js_nonneg (hours x) \<and> js_nonneg (earnings x)"
      if "x \<in> set (values_of (aggregated cfg es))" for x
    proof -
      from that obtain k' where k': "k' \<in> set (map fst (groupBy es))"
        and x: "x = project_aggregate cfg (project_entries es k') k'"
        unfolding aggregated_values by (metis (no_types, lifting) imageE list.set_map)
      from k' have "k' \<in> ProjectName ` set es"
        unfolding groupBy_keys .
      with pa x show ?thesis by simp
    qed
    then show ?thesis
      unfolding a sum_aggregates_fields
      by (simp add: foldl_js_add_nonneg)
  next
    case False
    have nh: "k \<noteq> ''haveEntryToday''"
      using get aggregateResults_flag [of ev es cfg] by auto
    from get False nh have "map_option Agg (obj_get k (aggregated cfg es)) = Some (Agg a)"
      by (simp add: aggregateResults_project)
    then have "k \<in> ProjectName ` set es"
      and "a = project_aggregate cfg (project_entries es k) k"
      by (auto simp: aggregated_get split: if_splits)
    with pa show ?thesis by simp
  qed
qed

theorem aggregates_nonnegative_witness:
  "list_all (\<lambda>e. nonneg_integer (DurationSeconds e)) entries_B_A_B_C \<and>
   list_all (\<lambda>e. ProjectName e \<notin> set object_prototype_keys) entries_B_A_B_C \<and>
   list_all (\<lambda>e. is_finite (project_hours entries_B_A_B_C (ProjectName e))) entries_B_A_B_C \<and>
   obj_get ''A'' (aggregateResults env_2016_05_09 entries_B_A_B_C cfg_A10)
     = Some (Agg \<lparr>hours = Fin (5404319552844595 / 18014398509481984), earnings = Fin 3\<rparr>) \<and>
   js_nonneg (Fin (5404319552844595 / 18014398509481984)) \<and> js_nonneg (Fin 3)"
proof -
  have d: "\<forall>e\<in>set entries_B_A_B_C. nonneg_integer (DurationSeconds e)"
    by code_simp
  have d': "list_all (\<lambda>e. nonneg_integer (DurationSeconds e)) entries_B_A_B_C"
    by code_simp
  have r: "\<forall>rs k r. rates cfg_A10 = Some rs \<longrightarrow> rs k = Some r \<longrightarrow> js_nonneg r \<and> is_finite r"
    by (auto simp: cfg_A10_def split: if_splits)
  have n: "\<forall>e\<in>set entries_B_A_B_C. ProjectName e \<notin> set object_prototype_keys"
    by code_simp
  have n': "list_all (\<lambda>e. ProjectName e \<notin> set object_prototype_keys) entries_B_A_B_C"
    by code_simp
  have f: "\<forall>e\<in>set entries_B_A_B_C. is_finite (project_hours entries_B_A_B_C (ProjectName e))"
    by code_simp
  have f': "list_all (\<lambda>e. is_finite (project_hours entries_B_A_B_C (ProjectName e))) entries_B_A_B_C"
    by code_simp
  have run: "obj_get ''A'' (aggregateResults env_2016_05_09 entries_B_A_B_C cfg_A10)
     = Some (Agg \<lparr>hours = Fin (5404319552844595 / 18014398509481984), earnings = Fin 3\<rparr>)"
    by code_simp
  from aggregates_nonnegative [OF d r n f, of env_2016_05_09] run d' n' f'
  show ?thesis
    by auto
qed

text \<open>
  C8, as the specification words it, needs no more than seconds and rates that are not
  negative. Two entries of \<open>2 ^ 1023\<close> seconds sum to infinity, and the rate 0 of a
  project without a rate times infinite hours is NaN; a project named \<open>constructor\<close>
  finds the inherited function as its rate whenever a \<open>rates\<close> object exists, and its
  earnings are NaN; an infinite rate times the zero hours of an entry of no seconds is
  NaN. NaN is not at or above zero.
\<close>

theorem nonnegative_counterexample:
  "list_all (\<lambda>e. nonneg_integer (DurationSeconds e)) entries_overflow \<and>
   obj_get ''A'' (aggregateResults env_2016_05_09 entries_overflow cfg_none)
     = Some (Agg \<lparr>hours = PInf, earnings = NaN\<rparr>) \<and>
   obj_get ''constructor'' (aggregateResults env_2016_05_09 [work ''constructor'' 3600] cfg_empty)
     = Some (Agg \<lparr>hours = Fin 1, earnings = NaN\<rparr>) \<and>
   obj_get ''A'' (aggregateResults env_2016_05_09 [work ''A'' 0] cfg_inf)
     = Some (Agg \<lparr>hours = Fin 0, earnings = NaN\<rparr>) \<and>
   \<not> js_nonneg NaN"
proof -
  have "(0::rat) \<le> pow2 1023" and "pow2 1023 = of_int \<lfloor>pow2 1023\<rfloor>"
    by (simp_all add: pow2_def)
  then have a: "list_all (\<lambda>e. nonneg_integer (DurationSeconds e)) entries_overflow"
    by (simp add: entries_overflow_def work_def nonneg_integer_def)
  have s1: "js_add (Fin 0) (Fin (pow2 1023)) = Fin (pow2 1023)"
    by (simp add: fl_pow2_1023)
  have s2: "js_add (Fin (pow2 1023)) (Fin (pow2 1023)) = PInf"
    by (simp only: js_add.simps fl_pow2_1023_twice)
  have pe: "project_entries entries_overflow ''A'' = entries_overflow"
    by (simp add: project_entries_def entries_overflow_def work_def)
  have ds: "map DurationSeconds entries_overflow = [Fin (pow2 1023), Fin (pow2 1023)]"
    by (simp add: entries_overflow_def work_def)
  have sm: "foldl js_add (Fin 0) (map DurationSeconds entries_overflow) = PInf"
    unfolding ds by (simp only: foldl.simps s1 s2)
  have pa: "project_aggregate cfg_none entries_overflow ''A'' = \<lparr>hours = PInf, earnings = NaN\<rparr>"
    unfolding project_aggregate_def durations_foldl sm
    by (simp add: resolve_rate_def cfg_none_def signed_inf_def)
  have b: "obj_get ''A'' (aggregateResults env_2016_05_09 entries_overflow cfg_none)
     = Some (Agg \<lparr>hours = PInf, earnings = NaN\<rparr>)"
    using pa by (simp add: aggregateResults_project aggregated_get pe)
       (simp add: entries_overflow_def work_def)
  have c: "obj_get ''constructor'' (aggregateResults env_2016_05_09 [work ''constructor'' 3600] cfg_empty)
     = Some (Agg \<lparr>hours = Fin 1, earnings = NaN\<rparr>)"
    by code_simp
  have d: "obj_get ''A'' (aggregateResults env_2016_05_09 [work ''A'' 0] cfg_inf)
     = Some (Agg \<lparr>hours = Fin 0, earnings = NaN\<rparr>)"
    by code_simp
  show ?thesis
    using a b c d by simp
qed

end
